theory Spec2Isabelle
  imports Main "HOL-Library.Word" "HOL-Library.AList"
begin

section \<open>Data model\<close>

text \<open>
  The lobby WebSocket handler of \<^verbatim>\<open>internal/handlers/lobby_ws.go\<close>:
  \<^verbatim>\<open>LobbyWSHandler\<close>, \<^verbatim>\<open>readPump\<close>, \<^verbatim>\<open>handleLobbyMessage\<close> and \<^verbatim>\<open>writePump\<close>.
  Objects reached through Go pointers live in explicit stores: a \<^verbatim>\<open>*LobbyState\<close> is
  addressed by its lobby identifier (the manager keeps one instance per identifier), a
  \<^verbatim>\<open>*LobbyConnection\<close> by a reference number. Everything the handler does to the outside
  (log lines, frames written, close frames, database calls, the goroutine it spawns) is
  appended to a list of effects, in program order.
\<close>

type_synonym uuid = "128 word"
type_synonym conn_ref = nat
type_synonym go_error = string

text \<open>A decoded JSON value, as \<^verbatim>\<open>encoding/json\<close> stores it in an \<^verbatim>\<open>interface{}\<close>. No handler
  looks at a number, so its value is kept as an integer.\<close>

datatype json =
    JNull
  | JBool bool
  | JNumber int
  | JString string
  | JArray "json list"
  | JObject "(string \<times> json) list"

type_synonym packet = "string \<rightharpoonup> json"

text \<open>\<^verbatim>\<open>v, _ := m[k].(string)\<close>: the string held under the key, or the empty string when
  the key is absent or holds anything else.\<close>

fun as_string :: "json option \<Rightarrow> string" where
  "as_string (Some (JString s)) = s"
| "as_string _ = []"

text \<open>Modelled from the spec: the outbound event envelope. \<^verbatim>\<open>OutChan\<close> carries
  \<^verbatim>\<open>map[string]interface{}\<close> values built by the lobby package, which is not among the
  sources; the spec fixes the kinds of event and leaves the field names open.\<close>

datatype event =
    UserJoined uuid
  | UserLeft uuid
  | ReadyStateChanged uuid bool
  | ChatMessage uuid string
  | CountdownCancelled

text \<open>\<^verbatim>\<open>lobby.LobbyConnection\<close>, as the handler builds it: the user, the cancel function of
  the connection's context (here: whether it has been called) and the buffered channel
  of capacity 10 (oldest item first).\<close>

record LobbyConnection =
  UserID :: uuid
  Cancelled :: bool
  OutChan :: "event list"

text \<open>\<^verbatim>\<open>lobby.LobbyState\<close>: the four fields the handler reads and writes. Modelled from the
  spec: the optional countdown handle, here the delay a running countdown was started
  with (the type's declaration is in the lobby package, which is not among the sources).\<close>

record LobbyState =
  LobbyID :: uuid
  Connections :: "(uuid \<times> conn_ref) list"
  ReadyStates :: "(uuid \<times> bool) list"
  AutoStart :: bool
  Countdown :: "nat option"

datatype StatusCode = StatusNormalClosure | StatusPolicyViolation | StatusInternalError

datatype level = Info | Warn

datatype MessageType = MessageText | MessageBinary

record websocket_Conn =
  Sock :: nat
  Subprotocol :: string

datatype effect =
    Logf level string
  | HttpError string nat
  | WsClose nat StatusCode string
  | WsWrite nat string
  | GoWritePump nat conn_ref
  | DbRemoveUserFromLobby uuid uuid

record server =
  lobbies :: "uuid \<Rightarrow> LobbyState"
  registry :: "uuid list"
  conns :: "conn_ref \<Rightarrow> LobbyConnection"
  next_conn :: conn_ref
  effects :: "effect list"

text \<open>What the handler calls outside this file and the lobby package: the cookie
  parser, the token verifier, the UUID parser, the two database calls and the JSON
  codec. Each is a parameter; an error is \<open>Inl\<close>. \<open>initialAutoStart\<close> is the flag a
  freshly created lobby state starts with.\<close>

record externals =
  extractCookieToken :: "string \<Rightarrow> string \<Rightarrow> string"
  AuthenticateJWT :: "string \<Rightarrow> go_error + string"
  uuid_Parse :: "string \<Rightarrow> go_error + uuid"
  IsUserInLobby :: "uuid \<Rightarrow> uuid \<Rightarrow> go_error + bool"
  RemoveUserFromLobby :: "uuid \<Rightarrow> uuid \<Rightarrow> go_error option"
  json_Unmarshal :: "string \<Rightarrow> go_error + packet"
  json_Marshal :: "event \<Rightarrow> go_error + string"
  initialAutoStart :: bool

text \<open>The request as the handler sees it: the URL path, the \<^verbatim>\<open>Cookie\<close> header and what
  \<^verbatim>\<open>websocket.Accept\<close> answers.\<close>

record request =
  url_path :: string
  cookie :: string
  accept :: "go_error + websocket_Conn"

text \<open>One result of \<^verbatim>\<open>c.Read(ctx)\<close>: an error (the peer closed, the transport failed, the
  context was cancelled) or a frame.\<close>

datatype read_result = ReadError go_error | ReadFrame MessageType string

text \<open>A task either returns, or it is left suspended: blocked in \<^verbatim>\<open>c.Read\<close> with no
  further frame, or blocked in \<^verbatim>\<open>select\<close> with neither case ready.\<close>

datatype 'a run = Returned 'a | Suspended 'a

fun final :: "'a run \<Rightarrow> 'a" where
  "final (Returned s) = s"
| "final (Suspended s) = s"

fun has_returned :: "'a run \<Rightarrow> bool" where
  "has_returned (Returned s) = True"
| "has_returned (Suspended s) = False"

section \<open>Small helpers\<close>

definition logf :: "level \<Rightarrow> string \<Rightarrow> server \<Rightarrow> server" where
  "logf l f s = s\<lparr>effects := effects s @ [Logf l f]\<rparr>"

definition emit :: "effect \<Rightarrow> server \<Rightarrow> server" where
  "emit e s = s\<lparr>effects := effects s @ [e]\<rparr>"

definition upd_ls :: "uuid \<Rightarrow> (LobbyState \<Rightarrow> LobbyState) \<Rightarrow> server \<Rightarrow> server" where
  "upd_ls ls f s = s\<lparr>lobbies := (lobbies s)(ls := f (lobbies s ls))\<rparr>"

text \<open>\<^verbatim>\<open>conn.Cancel()\<close>: cancelling a context twice is allowed and changes nothing more.\<close>

definition Cancel :: "conn_ref \<Rightarrow> server \<Rightarrow> server" where
  "Cancel r s = s\<lparr>conns := (conns s)(r := (conns s r)\<lparr>Cancelled := True\<rparr>)\<rparr>"

text \<open>\<^verbatim>\<open>c.Close(code, reason)\<close>.\<close>

definition Close :: "websocket_Conn \<Rightarrow> StatusCode \<Rightarrow> string \<Rightarrow> server \<Rightarrow> server" where
  "Close c code reason s = emit (WsClose (Sock c) code reason) s"

fun strings_Split :: "string \<Rightarrow> char \<Rightarrow> string list" where
  "strings_Split [] sep = [[]]"
| "strings_Split (x # xs) sep =
     (if x = sep then [] # strings_Split xs sep
      else (case strings_Split xs sep of
              [] \<Rightarrow> [[x]]
            | p # ps \<Rightarrow> (x # p) # ps))"

definition strings_TrimPrefix :: "string \<Rightarrow> string \<Rightarrow> string" where
  "strings_TrimPrefix s p = (if take (length p) s = p then drop (length p) s else s)"

section \<open>The lobby package\<close>

text \<open>Modelled from the spec: the non-blocking send of the broadcast primitives. The
  queue holds at most 10 items; a full queue drops the message for that recipient.\<close>

definition try_enqueue :: "event \<Rightarrow> event list \<Rightarrow> event list" where
  "try_enqueue ev q = (if length q < 10 then q @ [ev] else q)"

text \<open>Modelled from the spec: who a broadcast goes to (the lobby package is not among
  the sources): the connections that the connection map holds for a user the broadcast
  addresses.\<close>

definition is_recipient :: "(uuid \<Rightarrow> bool) \<Rightarrow> (uuid \<times> conn_ref) list \<Rightarrow> conn_ref \<Rightarrow> bool" where
  "is_recipient to cs r = list_ex (\<lambda>p. snd p = r \<and> to (fst p)) cs"

text \<open>Modelled from the spec: the fan-out shared by the broadcast primitives of
  \<^verbatim>\<open>lobby.LobbyState\<close> (not among the sources). One non-blocking send is attempted on the
  queue of every recipient; nothing else changes.\<close>

definition broadcast :: "(uuid \<Rightarrow> bool) \<Rightarrow> event \<Rightarrow> uuid \<Rightarrow> server \<Rightarrow> server" where
  "broadcast to ev ls s =
     s\<lparr>conns := (\<lambda>r. if is_recipient to (Connections (lobbies s ls)) r
                      then (conns s r)\<lparr>OutChan := try_enqueue ev (OutChan (conns s r))\<rparr>
                      else conns s r)\<rparr>"

text \<open>Modelled from the spec: \<^verbatim>\<open>BroadcastJoin\<close> (lobby package, not among the sources): "user
  joined" goes to all other current participants, not to the joining user.\<close>

definition BroadcastJoin :: "uuid \<Rightarrow> uuid \<Rightarrow> server \<Rightarrow> server" where
  "BroadcastJoin userID ls s = broadcast (\<lambda>u. u \<noteq> userID) (UserJoined userID) ls s"

text \<open>Modelled from the spec: \<^verbatim>\<open>BroadcastLeave\<close> (lobby package, not among the sources):
  "user left" goes to the remaining participants.\<close>

definition BroadcastLeave :: "uuid \<Rightarrow> uuid \<Rightarrow> server \<Rightarrow> server" where
  "BroadcastLeave userID ls s = broadcast (\<lambda>u. u \<noteq> userID) (UserLeft userID) ls s"

text \<open>Modelled from the spec: \<^verbatim>\<open>BroadcastReadyState\<close> (lobby package, not among the sources):
  "ready state changed" goes to all participants including the sender.\<close>

definition BroadcastReadyState :: "uuid \<Rightarrow> bool \<Rightarrow> uuid \<Rightarrow> server \<Rightarrow> server" where
  "BroadcastReadyState userID ready ls s =
     broadcast (\<lambda>u. True) (ReadyStateChanged userID ready) ls s"

text \<open>Modelled from the spec: \<^verbatim>\<open>BroadcastChat\<close> (lobby package, not among the sources): the
  chat event, attributed to the sender, goes to all other connected participants.\<close>

definition BroadcastChat :: "uuid \<Rightarrow> string \<Rightarrow> uuid \<Rightarrow> server \<Rightarrow> server" where
  "BroadcastChat userID msg ls s = broadcast (\<lambda>u. u \<noteq> userID) (ChatMessage userID msg) ls s"

text \<open>Modelled from the spec: \<^verbatim>\<open>AreAllReady\<close> (lobby package, not among the sources): true
  iff every user identifier in the connection map has a ready flag of true.\<close>

definition AreAllReady :: "uuid \<Rightarrow> server \<Rightarrow> bool" where
  "AreAllReady ls s =
     list_all (\<lambda>p. map_of (ReadyStates (lobbies s ls)) (fst p) = Some True)
       (Connections (lobbies s ls))"

text \<open>Modelled from the spec: \<^verbatim>\<open>StartCountdown\<close> (lobby package, not among the sources): a
  no-op if a countdown is running, otherwise a countdown with the given delay.\<close>

definition StartCountdown :: "nat \<Rightarrow> uuid \<Rightarrow> server \<Rightarrow> server" where
  "StartCountdown seconds ls s =
     (case Countdown (lobbies s ls) of
        Some d \<Rightarrow> s
      | None \<Rightarrow> upd_ls ls (\<lambda>l. l\<lparr>Countdown := Some seconds\<rparr>) s)"

text \<open>Modelled from the spec: \<^verbatim>\<open>CancelCountdown\<close> (lobby package, not among the sources): a
  running countdown is cancelled and its cancellation broadcast; safe when none runs.\<close>

definition CancelCountdown :: "uuid \<Rightarrow> server \<Rightarrow> server" where
  "CancelCountdown ls s =
     (case Countdown (lobbies s ls) of
        None \<Rightarrow> s
      | Some d \<Rightarrow> broadcast (\<lambda>u. True) CountdownCancelled ls
                    (upd_ls ls (\<lambda>l. l\<lparr>Countdown := None\<rparr>) s))"

text \<open>Modelled from the spec: \<^verbatim>\<open>RemoveUser\<close> (lobby package, not among the sources): removes
  the user from both maps, cancels that user's connection handle, and broadcasts "user
  left" to the remaining participants. The lobby state itself stays.\<close>

definition RemoveUser :: "uuid \<Rightarrow> uuid \<Rightarrow> server \<Rightarrow> server" where
  "RemoveUser userID ls s =
     (let s1 = (case map_of (Connections (lobbies s ls)) userID of
                  None \<Rightarrow> s
                | Some r \<Rightarrow> Cancel r s);
          s2 = upd_ls ls (\<lambda>l. l\<lparr>Connections := AList.delete userID (Connections l),
                                 ReadyStates := AList.delete userID (ReadyStates l)\<rparr>) s1
      in BroadcastLeave userID ls s2)"

text \<open>Modelled from the spec: \<^verbatim>\<open>GetOrCreateLobbyState\<close> (lobby package, not among the
  sources): the existing lobby state of the identifier, or a new, empty one that is
  registered. Lobby states are never removed.\<close>

definition GetOrCreateLobbyState :: "externals \<Rightarrow> uuid \<Rightarrow> server \<Rightarrow> server" where
  "GetOrCreateLobbyState ext lobbyID s =
     (if lobbyID \<in> set (registry s) then s
      else s\<lparr>registry := lobbyID # registry s,
             lobbies := (lobbies s)(lobbyID :=
               \<lparr>LobbyID = lobbyID, Connections = [], ReadyStates = [],
                AutoStart = initialAutoStart ext, Countdown = None\<rparr>)\<rparr>)"

section \<open>Message dispatch\<close>

text \<open>\<^verbatim>\<open>handleLobbyMessage(packet, ls, conn, logger)\<close>. The two map writes of the source,
  \<^verbatim>\<open>ls.ReadyStates[conn.UserID] = true\<close> and \<^verbatim>\<open>= false\<close>, are \<open>set_ready\<close>; each case of the
  \<^verbatim>\<open>switch\<close> is a definition of its own, and \<open>handleLobbyMessage\<close> is the \<^verbatim>\<open>switch\<close>.\<close>

definition set_ready :: "uuid \<Rightarrow> bool \<Rightarrow> uuid \<Rightarrow> server \<Rightarrow> server" where
  "set_ready userID v ls s =
     upd_ls ls (\<lambda>l. l\<lparr>ReadyStates := AList.update userID v (ReadyStates l)\<rparr>) s"

definition handle_ready :: "uuid \<Rightarrow> conn_ref \<Rightarrow> server \<Rightarrow> server" where
  "handle_ready ls conn s =
     (let s1 = set_ready (UserID (conns s conn)) True ls s;
          s2 = BroadcastReadyState (UserID (conns s1 conn)) True ls s1
      in if AutoStart (lobbies s2 ls) \<and> AreAllReady ls s2
         then StartCountdown 10 ls s2
         else s2)"

definition handle_unready :: "uuid \<Rightarrow> conn_ref \<Rightarrow> server \<Rightarrow> server" where
  "handle_unready ls conn s =
     (let s1 = set_ready (UserID (conns s conn)) False ls s;
          s2 = BroadcastReadyState (UserID (conns s1 conn)) False ls s1
      in CancelCountdown ls s2)"

definition handle_leave_lobby :: "externals \<Rightarrow> uuid \<Rightarrow> conn_ref \<Rightarrow> server \<Rightarrow> server" where
  "handle_leave_lobby ext ls conn s =
     (let userID = UserID (conns s conn);
          lobbyID = LobbyID (lobbies s ls);
          s1 = emit (DbRemoveUserFromLobby userID lobbyID) s;
          s2 = (case RemoveUserFromLobby ext userID lobbyID of
                  Some err \<Rightarrow> logf Warn ''failed to remove user %v from DB: %v'' s1
                | None \<Rightarrow> s1);
          s3 = BroadcastLeave userID ls s2
      in Cancel conn s3)"

definition handle_chat :: "packet \<Rightarrow> uuid \<Rightarrow> conn_ref \<Rightarrow> server \<Rightarrow> server" where
  "handle_chat packet ls conn s =
     (let msg = as_string (packet ''msg'')
      in BroadcastChat (UserID (conns s conn)) msg ls s)"

definition handleLobbyMessage ::
  "externals \<Rightarrow> packet \<Rightarrow> uuid \<Rightarrow> conn_ref \<Rightarrow> server \<Rightarrow> server" where
  "handleLobbyMessage ext packet ls conn s =
     (let action = as_string (packet ''type'') in
      if action = ''ready'' then handle_ready ls conn s
      else if action = ''unready'' then handle_unready ls conn s
      else if action = ''leave_lobby'' then handle_leave_lobby ext ls conn s
      else if action = ''chat'' then handle_chat packet ls conn s
      else logf Warn ''unknown action %s from user %v'' s)"

section \<open>The read task\<close>

text \<open>The \<^verbatim>\<open>for\<close> loop of \<^verbatim>\<open>readPump\<close> over the results \<^verbatim>\<open>c.Read(ctx)\<close> gives one after the
  other. The loop has one way out, the \<^verbatim>\<open>return\<close> on a read error.\<close>

fun readLoop ::
  "externals \<Rightarrow> uuid \<Rightarrow> conn_ref \<Rightarrow> read_result list \<Rightarrow> server \<Rightarrow> server run" where
  "readLoop ext ls conn [] s = Suspended s"
| "readLoop ext ls conn (ReadError err # rest) s =
     Returned (logf Info ''user %v read err: %v'' s)"
| "readLoop ext ls conn (ReadFrame typ msg # rest) s =
     (if typ \<noteq> MessageText then readLoop ext ls conn rest s
      else (case json_Unmarshal ext msg of
              Inl err \<Rightarrow>
                readLoop ext ls conn rest (logf Warn ''invalid json from user %v: %v'' s)
            | Inr packet \<Rightarrow>
                readLoop ext ls conn rest (handleLobbyMessage ext packet ls conn s)))"

text \<open>The deferred function of \<^verbatim>\<open>readPump\<close>.\<close>

definition on_exit :: "websocket_Conn \<Rightarrow> uuid \<Rightarrow> conn_ref \<Rightarrow> server \<Rightarrow> server" where
  "on_exit c ls conn s =
     (let s1 = RemoveUser (UserID (conns s conn)) ls s;
          s2 = Cancel conn s1
      in Close c StatusNormalClosure ''closing'' s2)"

definition readPump ::
  "externals \<Rightarrow> websocket_Conn \<Rightarrow> uuid \<Rightarrow> conn_ref \<Rightarrow> read_result list \<Rightarrow> server
     \<Rightarrow> server run" where
  "readPump ext c ls conn frames s =
     (case readLoop ext ls conn frames s of
        Returned s' \<Rightarrow> Returned (on_exit c ls conn s')
      | Suspended s' \<Rightarrow> Suspended s')"

section \<open>The write task\<close>

text \<open>\<^verbatim>\<open>select\<close> takes a case that is ready; when both are, the runtime picks one. The
  scheduler says, for each pass through the loop, which case wins when both are ready
  and whether \<^verbatim>\<open>c.Write\<close> succeeds if it is reached.\<close>

datatype select_case = CaseDone | CaseRecv

type_synonym scheduler = "nat \<Rightarrow> select_case \<times> bool"

fun writeLoop ::
  "externals \<Rightarrow> nat \<Rightarrow> bool \<Rightarrow> scheduler \<Rightarrow> nat \<Rightarrow> event list \<Rightarrow> effect list
     \<Rightarrow> (event list \<times> effect list) run" where
  "writeLoop ext c done sched i [] es =
     (if done then Returned ([], es) else Suspended ([], es))"
| "writeLoop ext c done sched i (msg # q) es =
     (if done \<and> fst (sched i) = CaseDone then Returned (msg # q, es)
      else (case json_Marshal ext msg of
              Inl err \<Rightarrow>
                writeLoop ext c done sched (Suc i) q
                  (es @ [Logf Warn ''failed to marshal out msg: %v''])
            | Inr data \<Rightarrow>
                if snd (sched i)
                then writeLoop ext c done sched (Suc i) q (es @ [WsWrite c data])
                else Returned (q, es @ [Logf Warn ''failed to write to ws: %v''])))"



section \<open>Accepting a connection\<close>

text \<open>Lines 90 to 106 of \<^verbatim>\<open>LobbyWSHandler\<close>: the lobby state is fetched, the connection
  object is built and stored in both maps, the write task is spawned and the join is
  broadcast. The result is the new state and the reference of the new connection.\<close>

definition register_conn ::
  "externals \<Rightarrow> websocket_Conn \<Rightarrow> uuid \<Rightarrow> uuid \<Rightarrow> server \<Rightarrow> server \<times> conn_ref" where
  "register_conn ext c lobbyUUID userID s =
     (let s1 = GetOrCreateLobbyState ext lobbyUUID s;
          conn = next_conn s1;
          s2 = s1\<lparr>conns := (conns s1)(conn := \<lparr>UserID = userID, Cancelled = False, OutChan = []\<rparr>),
                  next_conn := Suc conn\<rparr>;
          s3 = upd_ls lobbyUUID (\<lambda>l. l\<lparr>Connections := AList.update userID conn (Connections l)\<rparr>) s2;
          s4 = upd_ls lobbyUUID (\<lambda>l. l\<lparr>ReadyStates := AList.update userID False (ReadyStates l)\<rparr>) s3;
          s5 = logf Info ''User %v connected to lobby %v'' s4;
          s6 = emit (GoWritePump (Sock c) conn) s5;
          s7 = BroadcastJoin userID lobbyUUID s6
      in (s7, conn))"

text \<open>Lines 62 to 88: authentication and the membership check. \<open>Inl\<close> is the state
  after a refusal, \<open>Inr\<close> the user identifier of a member.\<close>

definition authorize ::
  "externals \<Rightarrow> request \<Rightarrow> websocket_Conn \<Rightarrow> uuid \<Rightarrow> server \<Rightarrow> server + uuid" where
  "authorize ext r c lobbyUUID s =
     (let token = extractCookieToken ext (cookie r) ''auth_token'' in
      case AuthenticateJWT ext token of
        Inl err \<Rightarrow>
          Inl (Close c StatusPolicyViolation ''invalid auth_token''
                 (logf Warn ''invalid token: %v'' s))
      | Inr userIDStr \<Rightarrow>
          (case uuid_Parse ext userIDStr of
             Inl err \<Rightarrow>
               Inl (Close c StatusPolicyViolation ''invalid user ID''
                      (logf Warn ''invalid userID parse: %v'' s))
           | Inr userID \<Rightarrow>
               (case IsUserInLobby ext lobbyUUID userID of
                  Inl dbErr \<Rightarrow>
                    Inl (Close c StatusInternalError ''db error''
                           (logf Warn ''db error checking membership: %v'' s))
                | Inr inLobby \<Rightarrow>
                    if \<not> inLobby
                    then Inl (Close c StatusPolicyViolation ''user not in that lobby''
                                (logf Warn ''user not in lobby'' s))
                    else Inr userID)))"

definition LobbyWSHandler ::
  "externals \<Rightarrow> request \<Rightarrow> read_result list \<Rightarrow> server \<Rightarrow> server run" where
  "LobbyWSHandler ext r frames s =
     (let pathParts = strings_Split (strings_TrimPrefix (url_path r) ''/lobby/ws/'') CHR ''/'' in
      if length pathParts < 1 then Returned (emit (HttpError ''missing lobby_id'' 400) s)
      else
        (case uuid_Parse ext (hd pathParts) of
           Inl err \<Rightarrow> Returned (emit (HttpError ''invalid lobby_id'' 400) s)
         | Inr lobbyUUID \<Rightarrow>
             (case accept r of
                Inl err \<Rightarrow> Returned (logf Warn ''websocket accept error: %v'' s)
              | Inr c \<Rightarrow>
                  if Subprotocol c \<noteq> ''lobby''
                  then Returned (Close c StatusPolicyViolation
                                   ''client must speak the lobby subprotocol'' s)
                  else
                    (case authorize ext r c lobbyUUID s of
                       Inl s' \<Rightarrow> Returned s'
                     | Inr userID \<Rightarrow>
                         (case register_conn ext c lobbyUUID userID s of
                            (s', conn) \<Rightarrow> readPump ext c lobbyUUID conn frames s')))))"

section \<open>Map writes and the lobby lock\<close>

text \<open>What each piece of the handler does to the two maps and the countdown handle of a
  lobby state, and to its lock, in program order. A plain assignment of the source to
  \<^verbatim>\<open>ls.Connections\<close> or \<^verbatim>\<open>ls.ReadyStates\<close> is a write; the source takes no lock around it
  (the file has no lock call at all).\<close>

datatype access =
    Lock uuid
  | Unlock uuid
  | WriteConnections uuid
  | WriteReadyStates uuid
  | WriteCountdown uuid

text \<open>Modelled from the spec: the public operations of \<^verbatim>\<open>lobby.LobbyState\<close> (not among the
  sources) are each internally lock-protected: a call takes the lobby's lock, does its
  writes and releases the lock. The broadcasts and \<^verbatim>\<open>AreAllReady\<close> write neither map;
  \<^verbatim>\<open>StartCountdown\<close> and \<^verbatim>\<open>CancelCountdown\<close> write the countdown handle when they change it;
  \<^verbatim>\<open>RemoveUser\<close> writes both maps.\<close>

definition critical :: "uuid \<Rightarrow> access list \<Rightarrow> access list" where
  "critical ls body = Lock ls # body @ [Unlock ls]"

definition Broadcast_accesses :: "uuid \<Rightarrow> access list" where
  "Broadcast_accesses ls = critical ls []"

definition AreAllReady_accesses :: "uuid \<Rightarrow> access list" where
  "AreAllReady_accesses ls = critical ls []"

definition StartCountdown_accesses :: "uuid \<Rightarrow> server \<Rightarrow> access list" where
  "StartCountdown_accesses ls s =
     critical ls (case Countdown (lobbies s ls) of
                    Some d \<Rightarrow> []
                  | None \<Rightarrow> [WriteCountdown ls])"

definition CancelCountdown_accesses :: "uuid \<Rightarrow> server \<Rightarrow> access list" where
  "CancelCountdown_accesses ls s =
     critical ls (case Countdown (lobbies s ls) of
                    None \<Rightarrow> []
                  | Some d \<Rightarrow> [WriteCountdown ls])"

definition RemoveUser_accesses :: "uuid \<Rightarrow> access list" where
  "RemoveUser_accesses ls = critical ls [WriteConnections ls, WriteReadyStates ls]"

text \<open>The dispatcher and the accept path, from the source: lines 147 and 154 write the
  ready-flag map, lines 98 and 99 write both maps, each before the first call into the
  lobby package. The test of line 150 calls \<^verbatim>\<open>AreAllReady\<close> only when \<^verbatim>\<open>AutoStart\<close> holds.\<close>

definition handle_ready_accesses :: "uuid \<Rightarrow> conn_ref \<Rightarrow> server \<Rightarrow> access list" where
  "handle_ready_accesses ls conn s =
     (let s1 = set_ready (UserID (conns s conn)) True ls s;
          s2 = BroadcastReadyState (UserID (conns s1 conn)) True ls s1
      in WriteReadyStates ls # Broadcast_accesses ls @
         (if AutoStart (lobbies s2 ls)
          then AreAllReady_accesses ls @
               (if AreAllReady ls s2 then StartCountdown_accesses ls s2 else [])
          else []))"

definition handle_unready_accesses :: "uuid \<Rightarrow> conn_ref \<Rightarrow> server \<Rightarrow> access list" where
  "handle_unready_accesses ls conn s =
     (let s1 = set_ready (UserID (conns s conn)) False ls s;
          s2 = BroadcastReadyState (UserID (conns s1 conn)) False ls s1
      in WriteReadyStates ls # Broadcast_accesses ls @ CancelCountdown_accesses ls s2)"

definition handleLobbyMessage_accesses ::
  "packet \<Rightarrow> uuid \<Rightarrow> conn_ref \<Rightarrow> server \<Rightarrow> access list" where
  "handleLobbyMessage_accesses packet ls conn s =
     (let action = as_string (packet ''type'') in
      if action = ''ready'' then handle_ready_accesses ls conn s
      else if action = ''unready'' then handle_unready_accesses ls conn s
      else if action = ''leave_lobby'' then Broadcast_accesses ls
      else if action = ''chat'' then Broadcast_accesses ls
      else [])"

definition register_conn_accesses :: "uuid \<Rightarrow> access list" where
  "register_conn_accesses lobbyUUID =
     WriteConnections lobbyUUID # WriteReadyStates lobbyUUID # Broadcast_accesses lobbyUUID"

definition on_exit_accesses :: "uuid \<Rightarrow> access list" where
  "on_exit_accesses ls = RemoveUser_accesses ls"

section \<open>Statement vocabulary\<close>


text \<open>A frame the read loop passes over: a frame that is not a text frame, a text
  frame whose payload does not parse, or a parsed message whose \<open>type\<close> is none of the
  four the dispatcher knows. \<open>skip_log\<close> is what the loop logs for it.\<close>

definition known_action :: "string \<Rightarrow> bool" where
  "known_action a = (a = ''ready'' \<or> a = ''unready'' \<or> a = ''leave_lobby'' \<or> a = ''chat'')"

fun skipped :: "externals \<Rightarrow> read_result \<Rightarrow> bool" where
  "skipped ext (ReadError err) = False"
| "skipped ext (ReadFrame typ msg) =
     (typ \<noteq> MessageText \<or>
      (case json_Unmarshal ext msg of
         Inl err \<Rightarrow> True
       | Inr packet \<Rightarrow> \<not> known_action (as_string (packet ''type''))))"

fun skip_log :: "externals \<Rightarrow> read_result \<Rightarrow> effect list" where
  "skip_log ext (ReadError err) = []"
| "skip_log ext (ReadFrame typ msg) =
     (if typ \<noteq> MessageText then []
      else (case json_Unmarshal ext msg of
              Inl err \<Rightarrow> [Logf Warn ''invalid json from user %v: %v'']
            | Inr packet \<Rightarrow> [Logf Warn ''unknown action %s from user %v'']))"

definition logged :: "effect list \<Rightarrow> server \<Rightarrow> server" where
  "logged es s = s\<lparr>effects := effects s @ es\<rparr>"

text \<open>The pairs of the connection map of a lobby, and its ready flags.\<close>

definition connected :: "uuid \<Rightarrow> server \<Rightarrow> (uuid \<times> conn_ref) set" where
  "connected ls s = set (Connections (lobbies s ls))"

definition ready_flag :: "uuid \<Rightarrow> server \<Rightarrow> uuid \<Rightarrow> bool option" where
  "ready_flag ls s = map_of (ReadyStates (lobbies s ls))"

text \<open>Read results that are frames; the close frames sent on one transport; and the
  state in which the deferred function of the read task starts: the one the loop reached
  on the frames before the read error, with the line the loop logs for the error.\<close>

fun is_frame :: "read_result \<Rightarrow> bool" where
  "is_frame (ReadFrame typ msg) = True"
| "is_frame (ReadError err) = False"

fun is_close_of :: "nat \<Rightarrow> effect \<Rightarrow> bool" where
  "is_close_of k (WsClose k' code reason) = (k' = k)"
| "is_close_of k e = False"

definition closes :: "nat \<Rightarrow> server \<Rightarrow> nat" where
  "closes k s = length (filter (is_close_of k) (effects s))"

definition before_exit ::
  "externals \<Rightarrow> uuid \<Rightarrow> conn_ref \<Rightarrow> read_result list \<Rightarrow> server \<Rightarrow> server" where
  "before_exit ext ls conn pre s =
     logf Info ''user %v read err: %v'' (final (readLoop ext ls conn pre s))"





text \<open>The lock discipline: every write to a lobby's maps or countdown handle happens
  while that lobby's lock is held.\<close>

fun under_lock :: "uuid list \<Rightarrow> access list \<Rightarrow> bool" where
  "under_lock held [] = True"
| "under_lock held (Lock l # t) = under_lock (l # held) t"
| "under_lock held (Unlock l # t) = under_lock (removeAll l held) t"
| "under_lock held (WriteConnections l # t) = (l \<in> set held \<and> under_lock held t)"
| "under_lock held (WriteReadyStates l # t) = (l \<in> set held \<and> under_lock held t)"
| "under_lock held (WriteCountdown l # t) = (l \<in> set held \<and> under_lock held t)"

definition lock_disciplined :: "access list \<Rightarrow> bool" where
  "lock_disciplined t = under_lock [] t"

section \<open>Example inputs\<close>

text \<open>Stand-ins for the external calls: the token \<open>forged\<close> fails verification, the
  membership query fails for user 3 and answers "no" for user 4; users 1 and 2 are
  members of lobby 100. Persisted removal fails for user 2. The serializer refuses chat
  events and accepts every other event.\<close>

definition ext0 :: externals where
  "ext0 = \<lparr>extractCookieToken = (\<lambda>header name. drop 11 header),
           AuthenticateJWT = (\<lambda>t. if t = ''forged'' then Inl ''signature is invalid'' else Inr t),
           uuid_Parse = (\<lambda>x. if x = ''lobby-a'' then Inr 100
                              else if x = ''alice'' then Inr 1
                              else if x = ''bob'' then Inr 2
                              else if x = ''carol'' then Inr 3
                              else if x = ''dave'' then Inr 4
                              else Inl ''invalid UUID length''),
           IsUserInLobby = (\<lambda>l u. if u = 3 then Inl ''connection refused''
                                   else Inr (l = 100 \<and> (u = 1 \<or> u = 2))),
           RemoveUserFromLobby = (\<lambda>u l. if u = 2 then Some ''connection refused'' else None),
           json_Unmarshal = (\<lambda>m. if m = ''ready'' then Inr [''type'' \<mapsto> JString ''ready'']
                                  else if m = ''unready'' then Inr [''type'' \<mapsto> JString ''unready'']
                                  else if m = ''leave'' then Inr [''type'' \<mapsto> JString ''leave_lobby'']
                                  else if m = ''chat'' then Inr [''type'' \<mapsto> JString ''chat'', ''msg'' \<mapsto> JNumber 7]
                                  else if m = ''dance'' then Inr [''type'' \<mapsto> JString ''dance'']
                                  else Inl ''unexpected end of JSON input''),
           json_Marshal = (\<lambda>ev. case ev of
                              ChatMessage u m \<Rightarrow> Inl ''unsupported value''
                            | UserJoined u \<Rightarrow> Inr ''joined''
                            | UserLeft u \<Rightarrow> Inr ''left''
                            | ReadyStateChanged u b \<Rightarrow> Inr ''ready''
                            | CountdownCancelled \<Rightarrow> Inr ''cancelled''),
           initialAutoStart = True\<rparr>"


definition conns0 :: "conn_ref \<Rightarrow> LobbyConnection" where
  "conns0 r = (if r = 0 then \<lparr>UserID = 1, Cancelled = False, OutChan = []\<rparr>
               else \<lparr>UserID = 2, Cancelled = False, OutChan = []\<rparr>)"

definition lobby0 :: LobbyState where
  "lobby0 = \<lparr>LobbyID = 100, Connections = [(1, 0), (2, 1)],
             ReadyStates = [(1, False), (2, True)], AutoStart = True, Countdown = None\<rparr>"

definition s0 :: server where
  "s0 = \<lparr>lobbies = (\<lambda>l. lobby0), registry = [100], conns = conns0, next_conn = 2,
         effects = []\<rparr>"

definition noise0 :: "read_result list" where
  "noise0 = [ReadFrame MessageBinary ''ready'', ReadFrame MessageText ''{'',
             ReadFrame MessageText ''dance'']"

definition chat_no_msg :: packet where
  "chat_no_msg = [''type'' \<mapsto> JString ''chat'']"

definition chat_num_msg :: packet where
  "chat_num_msg = [''type'' \<mapsto> JString ''chat'', ''msg'' \<mapsto> JNumber 7]"

definition ready_packet :: packet where
  "ready_packet = [''type'' \<mapsto> JString ''ready'']"

definition unready_packet :: packet where
  "unready_packet = [''type'' \<mapsto> JString ''unready'']"

definition leave_packet :: packet where
  "leave_packet = [''type'' \<mapsto> JString ''leave_lobby'']"

definition s_counting :: server where
  "s_counting = s0\<lparr>lobbies := (\<lambda>l. lobby0\<lparr>ReadyStates := [(1, True), (2, True)],
                                            Countdown := Some 10\<rparr>)\<rparr>"

definition frames0 :: "read_result list" where
  "frames0 = [ReadFrame MessageText ''ready'', ReadFrame MessageBinary ''x'']"










section \<open>Refused connections\<close>

lemma strings_Split_nonempty: "strings_Split xs sep \<noteq> []"
  by (induction xs) (auto split: list.splits)



section \<open>Frames that are passed over\<close>

lemma logged_Nil: "logged [] s = s"
  by (simp add: logged_def)

lemma logged_logged: "logged es (logged ds s) = logged (ds @ es) s"
  by (simp add: logged_def)

lemma handle_unknown:
  "\<not> known_action (as_string (packet ''type'')) \<Longrightarrow>
     handleLobbyMessage ext packet ls conn s =
       logged [Logf Warn ''unknown action %s from user %v''] s"
  by (simp add: handleLobbyMessage_def known_action_def logf_def logged_def)

lemma readLoop_skipped_step:
  "skipped ext fr \<Longrightarrow>
     readLoop ext ls conn (fr # rest) s = readLoop ext ls conn rest (logged (skip_log ext fr) s)"
  by (cases fr) (auto simp: logged_Nil handle_unknown logf_def logged_def split: sum.splits)

lemma readLoop_skipped:
  "list_all (skipped ext) pre \<Longrightarrow>
     readLoop ext ls conn (pre @ rest) s =
       readLoop ext ls conn rest (logged (concat (map (skip_log ext) pre)) s)"
proof (induction pre arbitrary: s)
  case Nil
  then show ?case by (simp add: logged_Nil)
next
  case (Cons fr pre)
  then have "skipped ext fr" and "list_all (skipped ext) pre" by simp_all
  then show ?case
    using Cons.IH by (simp add: readLoop_skipped_step logged_logged del: readLoop.simps)
qed

text \<open>
  C4. A non-text frame is skipped, a payload that fails JSON parsing is logged and
  skipped, and a message with an unrecognised type is logged and ignored. After any run of
  such frames the read task is still in its loop: it goes on with the next frame exactly
  as if it had started there, the log lines apart, and when no frame follows it is
  suspended in the read, not returned. Lobby state and connection objects are untouched,
  nothing is closed and nothing is cancelled.
\<close>

theorem C4_noise_frames_keep_connection:
  assumes "list_all (skipped ext) pre"
  shows "readPump ext c ls conn (pre @ rest) s =
           readPump ext c ls conn rest (logged (concat (map (skip_log ext) pre)) s)
       \<and> readPump ext c ls conn pre s = Suspended (logged (concat (map (skip_log ext) pre)) s)"
proof -
  have "readLoop ext ls conn (pre @ []) s =
          readLoop ext ls conn [] (logged (concat (map (skip_log ext) pre)) s)"
    using assms by (rule readLoop_skipped)
  then have "readLoop ext ls conn pre s = Suspended (logged (concat (map (skip_log ext) pre)) s)"
    by simp
  then show ?thesis
    using assms by (simp add: readPump_def readLoop_skipped)
qed

theorem C4_noise_frames_witness:
  "readPump ext0 \<lparr>Sock = 7, Subprotocol = ''lobby''\<rparr> 100 0 noise0 s0 =
     Suspended (s0\<lparr>effects := [Logf Warn ''invalid json from user %v: %v'',
                                Logf Warn ''unknown action %s from user %v'']\<rparr>)
   \<and> readPump ext0 \<lparr>Sock = 7, Subprotocol = ''lobby''\<rparr> 100 0
       (noise0 @ [ReadFrame MessageText ''ready'']) s0 =
     readPump ext0 \<lparr>Sock = 7, Subprotocol = ''lobby''\<rparr> 100 0 [ReadFrame MessageText ''ready'']
       (s0\<lparr>effects := [Logf Warn ''invalid json from user %v: %v'',
                        Logf Warn ''unknown action %s from user %v'']\<rparr>)"
proof -
  have h: "list_all (skipped ext0) noise0"
    by (simp add: noise0_def ext0_def known_action_def)
  have l: "logged (concat (map (skip_log ext0) noise0)) s0 =
             s0\<lparr>effects := [Logf Warn ''invalid json from user %v: %v'',
                             Logf Warn ''unknown action %s from user %v'']\<rparr>"
    by (simp add: noise0_def ext0_def logged_def s0_def)
  from C4_noise_frames_keep_connection [OF h, of "\<lparr>Sock = 7, Subprotocol = ''lobby''\<rparr>" 100 0
      "[ReadFrame MessageText ''ready'']" s0]
  show ?thesis by (simp add: l)
qed

section \<open>Broadcasts\<close>

lemma recipient_member:
  "(u, r) \<in> set cs \<Longrightarrow> to u \<Longrightarrow> is_recipient to cs r"
  by (force simp: is_recipient_def list_ex_iff)

lemma broadcast_frame:
  "lobbies (broadcast to ev ls s) = lobbies s"
  "registry (broadcast to ev ls s) = registry s"
  "effects (broadcast to ev ls s) = effects s"
  "next_conn (broadcast to ev ls s) = next_conn s"
  "UserID (conns (broadcast to ev ls s) r) = UserID (conns s r)"
  "Cancelled (conns (broadcast to ev ls s) r) = Cancelled (conns s r)"
  by (simp_all add: broadcast_def)

lemma broadcast_delivers:
  "is_recipient to (Connections (lobbies s ls)) r \<Longrightarrow>
     OutChan (conns (broadcast to ev ls s) r) = try_enqueue ev (OutChan (conns s r))"
  by (simp add: broadcast_def)


lemma recipient_all: "(u, r) \<in> set cs \<Longrightarrow> is_recipient (\<lambda>u. True) cs r"
  by (rule recipient_member) simp_all

lemma AreAllReady_iff:
  "AreAllReady ls s \<longleftrightarrow> (\<forall>(u, r) \<in> connected ls s. ready_flag ls s u = Some True)"
  by (auto simp: AreAllReady_def connected_def ready_flag_def list_all_iff)

section \<open>Chat without a usable message\<close>

lemma as_string_not_string: "\<forall>m. v \<noteq> Some (JString m) \<Longrightarrow> as_string v = []"
  by (cases v rule: as_string.cases) auto

text \<open>
  C10. A \<open>chat\<close> message whose \<open>msg\<close> field is absent or is not a string is neither
  rejected nor ignored: the dispatcher calls the chat broadcast with the sender and the
  empty string. Nothing is logged, and the queue of every other connected participant is
  offered a chat event attributed to the sender with empty content.
\<close>

theorem C10_chat_without_msg_broadcasts_empty:
  assumes ty: "as_string (packet ''type'') = ''chat''"
      and msg: "\<forall>m. packet ''msg'' \<noteq> Some (JString m)"
  shows "handleLobbyMessage ext packet ls conn s = BroadcastChat (UserID (conns s conn)) [] ls s
       \<and> effects (handleLobbyMessage ext packet ls conn s) = effects s
       \<and> (\<forall>(u, r) \<in> set (Connections (lobbies s ls)). u \<noteq> UserID (conns s conn) \<longrightarrow>
            OutChan (conns (handleLobbyMessage ext packet ls conn s) r) =
              try_enqueue (ChatMessage (UserID (conns s conn)) []) (OutChan (conns s r)))"
proof -
  have eq: "handleLobbyMessage ext packet ls conn s = BroadcastChat (UserID (conns s conn)) [] ls s"
    using ty as_string_not_string [OF msg]
    by (simp add: handleLobbyMessage_def handle_chat_def)
  show ?thesis
    unfolding eq BroadcastChat_def
    by (auto simp: broadcast_frame intro!: broadcast_delivers recipient_member)
qed

theorem C10_chat_without_msg_witness:
  "OutChan (conns (handleLobbyMessage ext0 chat_no_msg 100 0 s0) 1) = [ChatMessage 1 []]
   \<and> OutChan (conns (handleLobbyMessage ext0 chat_num_msg 100 0 s0) 1) = [ChatMessage 1 []]
   \<and> effects (handleLobbyMessage ext0 chat_no_msg 100 0 s0) = []"
proof -
  have t1: "as_string (chat_no_msg ''type'') = ''chat''" by (simp add: chat_no_msg_def)
  have m1: "\<forall>m. chat_no_msg ''msg'' \<noteq> Some (JString m)" by (simp add: chat_no_msg_def)
  have t2: "as_string (chat_num_msg ''type'') = ''chat''" by (simp add: chat_num_msg_def)
  have m2: "\<forall>m. chat_num_msg ''msg'' \<noteq> Some (JString m)" by (simp add: chat_num_msg_def)
  have mem: "(2, 1) \<in> set (Connections (lobbies s0 100))" and uid: "UserID (conns s0 0) = 1"
    and q: "OutChan (conns s0 1) = []" and e: "effects s0 = []"
    by (simp_all add: s0_def lobby0_def conns0_def)
  from C10_chat_without_msg_broadcasts_empty [OF t1 m1, of ext0 100 0 s0] mem uid q e
  have a: "OutChan (conns (handleLobbyMessage ext0 chat_no_msg 100 0 s0) 1) = [ChatMessage 1 []]"
    and c: "effects (handleLobbyMessage ext0 chat_no_msg 100 0 s0) = []"
    by (auto simp: try_enqueue_def)
  from C10_chat_without_msg_broadcasts_empty [OF t2 m2, of ext0 100 0 s0] mem uid q
  have b: "OutChan (conns (handleLobbyMessage ext0 chat_num_msg 100 0 s0) 1) = [ChatMessage 1 []]"
    by (auto simp: try_enqueue_def)
  from a b c show ?thesis by simp
qed

section \<open>Ready and unready\<close>

text \<open>
  C1. When a participant's connection delivers a message of type \<open>ready\<close>, the
  dispatcher sets that participant's ready flag to true and offers the ready-state change
  to the queue of every connected participant, the sender included. If the lobby's
  autoStart flag is set and every connected participant is then ready, the dispatcher
  calls the countdown start with 10 seconds: a countdown is running afterwards, and it is
  the 10 second one whenever none was running before.
\<close>

theorem C1_ready_sets_flag_and_starts_countdown:
  assumes ty: "as_string (packet ''type'') = ''ready''"
  shows "ready_flag ls (handleLobbyMessage ext packet ls conn s) (UserID (conns s conn)) = Some True
       \<and> (\<forall>(u, r) \<in> connected ls s.
            OutChan (conns (handleLobbyMessage ext packet ls conn s) r) =
              try_enqueue (ReadyStateChanged (UserID (conns s conn)) True) (OutChan (conns s r)))
       \<and> (AutoStart (lobbies s ls) \<and>
          (\<forall>(u, r) \<in> connected ls s. u = UserID (conns s conn) \<or> ready_flag ls s u = Some True) \<longrightarrow>
            handleLobbyMessage ext packet ls conn s =
              StartCountdown 10 ls (BroadcastReadyState (UserID (conns s conn)) True ls
                (set_ready (UserID (conns s conn)) True ls s))
            \<and> Countdown (lobbies (handleLobbyMessage ext packet ls conn s) ls) \<noteq> None
            \<and> (Countdown (lobbies s ls) = None \<longrightarrow>
                 Countdown (lobbies (handleLobbyMessage ext packet ls conn s) ls) = Some 10))"
proof -
  let ?uid = "UserID (conns s conn)"
  let ?s1 = "set_ready ?uid True ls s"
  let ?s2 = "BroadcastReadyState ?uid True ls ?s1"
  let ?s' = "handleLobbyMessage ext packet ls conn s"
  have s1: "conns ?s1 = conns s" "Connections (lobbies ?s1 ls) = Connections (lobbies s ls)"
    "ready_flag ls ?s1 = (ready_flag ls s)(?uid \<mapsto> True)"
    "AutoStart (lobbies ?s1 ls) = AutoStart (lobbies s ls)"
    "Countdown (lobbies ?s1 ls) = Countdown (lobbies s ls)"
    by (simp_all add: set_ready_def upd_ls_def ready_flag_def update_conv')
  have s2: "lobbies ?s2 = lobbies ?s1"
    "\<And>u r. (u, r) \<in> connected ls s \<Longrightarrow>
       OutChan (conns ?s2 r) = try_enqueue (ReadyStateChanged ?uid True) (OutChan (conns s r))"
    using s1 by (simp_all add: BroadcastReadyState_def broadcast_frame broadcast_delivers
        recipient_all connected_def)
  have s': "?s' = (if AutoStart (lobbies ?s2 ls) \<and> AreAllReady ls ?s2
                   then StartCountdown 10 ls ?s2 else ?s2)"
    using ty by (simp add: handleLobbyMessage_def handle_ready_def s1 Let_def)
  have start: "conns (StartCountdown 10 ls ?s2) = conns ?s2"
    "ready_flag ls (StartCountdown 10 ls ?s2) = ready_flag ls ?s2"
    "Countdown (lobbies (StartCountdown 10 ls ?s2) ls) \<noteq> None"
    "Countdown (lobbies ?s2 ls) = None \<Longrightarrow> Countdown (lobbies (StartCountdown 10 ls ?s2) ls) = Some 10"
    by (simp_all add: StartCountdown_def upd_ls_def ready_flag_def split: option.splits)
  have flag: "ready_flag ls ?s' ?uid = Some True"
    using s1 s2(1) start(2) by (simp add: s' ready_flag_def)
  have sent: "\<forall>(u, r) \<in> connected ls s.
      OutChan (conns ?s' r) = try_enqueue (ReadyStateChanged ?uid True) (OutChan (conns s r))"
    using s2(2) start(1) by (auto simp: s')
  have all: "AreAllReady ls ?s2 \<longleftrightarrow>
      (\<forall>(u, r) \<in> connected ls s. u = ?uid \<or> ready_flag ls s u = Some True)"
  proof -
    have c: "connected ls ?s2 = connected ls s"
      by (simp add: connected_def s2(1) s1(2))
    have f: "ready_flag ls ?s2 = (ready_flag ls s)(?uid \<mapsto> True)"
      using s1(3) by (simp add: ready_flag_def s2(1))
    show ?thesis
      unfolding AreAllReady_iff c f by (rule ball_cong) (auto split: if_splits)
  qed
  have auto_start: "AutoStart (lobbies ?s2 ls) = AutoStart (lobbies s ls)"
    "Countdown (lobbies ?s2 ls) = Countdown (lobbies s ls)"
    using s1 s2(1) by simp_all
  show ?thesis
    using flag sent start(3,4) by (simp add: s' all auto_start)
qed

theorem C1_ready_witness:
  "ready_flag 100 (handleLobbyMessage ext0 ready_packet 100 0 s0) 1 = Some True
   \<and> OutChan (conns (handleLobbyMessage ext0 ready_packet 100 0 s0) 0) = [ReadyStateChanged 1 True]
   \<and> OutChan (conns (handleLobbyMessage ext0 ready_packet 100 0 s0) 1) = [ReadyStateChanged 1 True]
   \<and> Countdown (lobbies (handleLobbyMessage ext0 ready_packet 100 0 s0) 100) = Some 10"
proof -
  have ty: "as_string (ready_packet ''type'') = ''ready''"
    by (simp add: ready_packet_def)
  have uid: "UserID (conns s0 0) = 1"
    by (simp add: s0_def conns0_def)
  have mem: "connected 100 s0 = {(1, 0), (2, 1)}"
    by (auto simp: connected_def s0_def lobby0_def)
  have q: "OutChan (conns s0 0) = []" "OutChan (conns s0 (Suc 0)) = []"
    by (simp_all add: s0_def conns0_def)
  have pre: "AutoStart (lobbies s0 100)" "ready_flag 100 s0 2 = Some True"
    "Countdown (lobbies s0 100) = None"
    by (simp_all add: s0_def lobby0_def ready_flag_def)
  let ?h = "handleLobbyMessage ext0 ready_packet 100 0 s0"
  note main = C1_ready_sets_flag_and_starts_countdown
      [where packet = ready_packet and ls = 100 and ext = ext0 and conn = 0 and s = s0, OF ty]
  have a: "ready_flag 100 ?h 1 = Some True"
    using main [THEN conjunct1] by (simp add: uid)
  have b: "OutChan (conns ?h 0) = [ReadyStateChanged 1 True]"
    "OutChan (conns ?h 1) = [ReadyStateChanged 1 True]"
    using main [THEN conjunct2, THEN conjunct1] by (simp_all add: uid mem q try_enqueue_def)
  have all: "AutoStart (lobbies s0 100) \<and>
      (\<forall>(u, r) \<in> connected 100 s0. u = UserID (conns s0 0) \<or> ready_flag 100 s0 u = Some True)"
    by (simp add: pre mem uid)
  have "Countdown (lobbies s0 100) = None \<longrightarrow> Countdown (lobbies ?h 100) = Some 10"
    using main [THEN conjunct2, THEN conjunct2] all by blast
  then have c: "Countdown (lobbies ?h 100) = Some 10"
    using pre(3) by blast
  from a b c show ?thesis by simp
qed

lemma CancelCountdown_facts:
  "Countdown (lobbies (CancelCountdown ls s) ls) = None"
  "ready_flag ls (CancelCountdown ls s) = ready_flag ls s"
  "effects (CancelCountdown ls s) = effects s"
  "is_recipient (\<lambda>u. True) (Connections (lobbies s ls)) r \<Longrightarrow>
     OutChan (conns (CancelCountdown ls s) r) =
       (case Countdown (lobbies s ls) of
          None \<Rightarrow> OutChan (conns s r)
        | Some d \<Rightarrow> try_enqueue CountdownCancelled (OutChan (conns s r)))"
  by (simp_all add: CancelCountdown_def broadcast_def upd_ls_def ready_flag_def
      split: option.splits)

text \<open>
  C2. When a participant's connection delivers a message of type \<open>unready\<close>, the
  dispatcher sets that participant's ready flag to false, offers the ready-state change to
  the queue of every connected participant, and calls the countdown cancellation (which
  announces the cancellation when a countdown was running). Whatever the state before, and
  so in every state where a countdown is running, no countdown is running afterwards.
\<close>

theorem C2_unready_clears_flag_and_countdown:
  assumes ty: "as_string (packet ''type'') = ''unready''"
  shows "ready_flag ls (handleLobbyMessage ext packet ls conn s) (UserID (conns s conn)) = Some False
       \<and> (\<forall>(u, r) \<in> connected ls s.
            OutChan (conns (handleLobbyMessage ext packet ls conn s) r) =
              (case Countdown (lobbies s ls) of
                 None \<Rightarrow> try_enqueue (ReadyStateChanged (UserID (conns s conn)) False)
                           (OutChan (conns s r))
               | Some d \<Rightarrow> try_enqueue CountdownCancelled
                             (try_enqueue (ReadyStateChanged (UserID (conns s conn)) False)
                                (OutChan (conns s r)))))
       \<and> handleLobbyMessage ext packet ls conn s =
           CancelCountdown ls (BroadcastReadyState (UserID (conns s conn)) False ls
             (set_ready (UserID (conns s conn)) False ls s))
       \<and> Countdown (lobbies (handleLobbyMessage ext packet ls conn s) ls) = None"
proof -
  let ?uid = "UserID (conns s conn)"
  let ?s1 = "set_ready ?uid False ls s"
  let ?s2 = "BroadcastReadyState ?uid False ls ?s1"
  let ?s' = "handleLobbyMessage ext packet ls conn s"
  have s1: "conns ?s1 = conns s" "Connections (lobbies ?s1 ls) = Connections (lobbies s ls)"
    "ready_flag ls ?s1 = (ready_flag ls s)(?uid \<mapsto> False)"
    "Countdown (lobbies ?s1 ls) = Countdown (lobbies s ls)"
    by (simp_all add: set_ready_def upd_ls_def ready_flag_def update_conv')
  have s2: "lobbies ?s2 = lobbies ?s1"
    "\<And>u r. (u, r) \<in> connected ls s \<Longrightarrow>
       OutChan (conns ?s2 r) = try_enqueue (ReadyStateChanged ?uid False) (OutChan (conns s r))"
    using s1 by (simp_all add: BroadcastReadyState_def broadcast_frame broadcast_delivers
        recipient_all connected_def)
  have s': "?s' = CancelCountdown ls ?s2"
    using ty by (simp add: handleLobbyMessage_def handle_unready_def s1 Let_def)
  have flag: "ready_flag ls ?s' ?uid = Some False"
    using s1(3) by (simp add: s' CancelCountdown_facts(2)) (simp add: ready_flag_def s2(1))
  have sent: "\<And>u r. (u, r) \<in> connected ls s \<Longrightarrow>
      OutChan (conns ?s' r) =
        (case Countdown (lobbies s ls) of
           None \<Rightarrow> try_enqueue (ReadyStateChanged ?uid False) (OutChan (conns s r))
         | Some d \<Rightarrow> try_enqueue CountdownCancelled
                       (try_enqueue (ReadyStateChanged ?uid False) (OutChan (conns s r))))"
  proof -
    fix u r
    assume m: "(u, r) \<in> connected ls s"
    then have r: "is_recipient (\<lambda>u. True) (Connections (lobbies ?s2 ls)) r"
      by (simp add: s2(1) s1(2) connected_def recipient_all)
    have "OutChan (conns (CancelCountdown ls ?s2) r) =
        (case Countdown (lobbies ?s2 ls) of
           None \<Rightarrow> OutChan (conns ?s2 r)
         | Some d \<Rightarrow> try_enqueue CountdownCancelled (OutChan (conns ?s2 r)))"
      by (rule CancelCountdown_facts(4) [OF r])
    also have "\<dots> =
        (case Countdown (lobbies s ls) of
           None \<Rightarrow> try_enqueue (ReadyStateChanged ?uid False) (OutChan (conns s r))
         | Some d \<Rightarrow> try_enqueue CountdownCancelled
                       (try_enqueue (ReadyStateChanged ?uid False) (OutChan (conns s r))))"
      by (simp add: s2(1) s1(4) s2(2) [OF m] cong: option.case_cong)
    finally show "OutChan (conns ?s' r) =
        (case Countdown (lobbies s ls) of
           None \<Rightarrow> try_enqueue (ReadyStateChanged ?uid False) (OutChan (conns s r))
         | Some d \<Rightarrow> try_enqueue CountdownCancelled
                       (try_enqueue (ReadyStateChanged ?uid False) (OutChan (conns s r))))"
      unfolding s' .
  qed
  show ?thesis
    using flag sent by (auto simp: s' CancelCountdown_facts(1))
qed

theorem C2_unready_witness:
  "ready_flag 100 (handleLobbyMessage ext0 unready_packet 100 1 s_counting) 2 = Some False
   \<and> OutChan (conns (handleLobbyMessage ext0 unready_packet 100 1 s_counting) 0) =
       [ReadyStateChanged 2 False, CountdownCancelled]
   \<and> Countdown (lobbies s_counting 100) = Some 10
   \<and> Countdown (lobbies (handleLobbyMessage ext0 unready_packet 100 1 s_counting) 100) = None"
proof -
  have ty: "as_string (unready_packet ''type'') = ''unready''"
    by (simp add: unready_packet_def)
  have uid: "UserID (conns s_counting (Suc 0)) = 2"
    by (simp add: s_counting_def s0_def conns0_def)
  have mem: "connected 100 s_counting = {(1, 0), (2, 1)}"
    by (auto simp: connected_def s_counting_def s0_def lobby0_def)
  have q: "OutChan (conns s_counting 0) = []"
    by (simp_all add: s_counting_def s0_def conns0_def)
  have pre: "Countdown (lobbies s_counting 100) = Some 10"
    by (simp_all add: s_counting_def s0_def lobby0_def)
  let ?h = "handleLobbyMessage ext0 unready_packet 100 1 s_counting"
  note main = C2_unready_clears_flag_and_countdown
      [where packet = unready_packet and ls = 100 and ext = ext0 and conn = 1 and s = s_counting,
        OF ty]
  have a: "ready_flag 100 ?h 2 = Some False"
    using main [THEN conjunct1] by (simp add: uid)
  have b: "OutChan (conns ?h 0) = [ReadyStateChanged 2 False, CountdownCancelled]"
    using main [THEN conjunct2, THEN conjunct1] by (simp add: uid mem q pre try_enqueue_def)
  have c: "Countdown (lobbies ?h 100) = None"
    using main [THEN conjunct2, THEN conjunct2, THEN conjunct2] .
  from a b c pre show ?thesis by simp
qed

section \<open>Leaving a lobby\<close>

lemma Cancel_frame:
  "lobbies (Cancel r s) = lobbies s"
  "effects (Cancel r s) = effects s"
  "Cancelled (conns (Cancel r s) r)"
  "OutChan (conns (Cancel r s) r') = OutChan (conns s r')"
  "UserID (conns (Cancel r s) r') = UserID (conns s r')"
  by (simp_all add: Cancel_def)

text \<open>
  C8. When a participant's connection delivers a message of type \<open>leave_lobby\<close>, the
  persisted-membership removal is called for that user and lobby. Whether it succeeds or
  returns an error (which is then logged and nothing more), the "user left" event is
  offered to the queue of every other connected participant and the connection's
  cancellation handle is cancelled. The dispatcher itself leaves both maps of the lobby
  state as they are.
\<close>

theorem C8_leave_proceeds_despite_persistence_error:
  assumes ty: "as_string (packet ''type'') = ''leave_lobby''"
  shows "effects (handleLobbyMessage ext packet ls conn s) =
           effects s @ DbRemoveUserFromLobby (UserID (conns s conn)) (LobbyID (lobbies s ls)) #
             (case RemoveUserFromLobby ext (UserID (conns s conn)) (LobbyID (lobbies s ls)) of
                None \<Rightarrow> []
              | Some err \<Rightarrow> [Logf Warn ''failed to remove user %v from DB: %v''])
       \<and> (\<forall>(u, r) \<in> connected ls s. u \<noteq> UserID (conns s conn) \<longrightarrow>
            OutChan (conns (handleLobbyMessage ext packet ls conn s) r) =
              try_enqueue (UserLeft (UserID (conns s conn))) (OutChan (conns s r)))
       \<and> Cancelled (conns (handleLobbyMessage ext packet ls conn s) conn)
       \<and> lobbies (handleLobbyMessage ext packet ls conn s) = lobbies s"
proof -
  let ?uid = "UserID (conns s conn)"
  let ?lid = "LobbyID (lobbies s ls)"
  let ?s1 = "emit (DbRemoveUserFromLobby ?uid ?lid) s"
  let ?s2 = "case RemoveUserFromLobby ext ?uid ?lid of
               Some err \<Rightarrow> logf Warn ''failed to remove user %v from DB: %v'' ?s1
             | None \<Rightarrow> ?s1"
  let ?s' = "handleLobbyMessage ext packet ls conn s"
  have s': "?s' = Cancel conn (BroadcastLeave ?uid ls ?s2)"
    using ty by (simp add: handleLobbyMessage_def handle_leave_lobby_def Let_def)
  have s2: "lobbies ?s2 = lobbies s" "conns ?s2 = conns s"
    "effects ?s2 = effects s @ DbRemoveUserFromLobby ?uid ?lid #
       (case RemoveUserFromLobby ext ?uid ?lid of
          None \<Rightarrow> []
        | Some err \<Rightarrow> [Logf Warn ''failed to remove user %v from DB: %v''])"
    by (simp_all add: emit_def logf_def split: option.splits)
  have sent: "\<And>u r. (u, r) \<in> connected ls s \<Longrightarrow> u \<noteq> ?uid \<Longrightarrow>
      OutChan (conns ?s' r) = try_enqueue (UserLeft ?uid) (OutChan (conns s r))"
  proof -
    fix u r
    assume "(u, r) \<in> connected ls s" and "u \<noteq> ?uid"
    then have "is_recipient (\<lambda>u. u \<noteq> ?uid) (Connections (lobbies ?s2 ls)) r"
      by (simp only: s2(1)) (simp add: connected_def recipient_member)
    then have "OutChan (conns (broadcast (\<lambda>u. u \<noteq> ?uid) (UserLeft ?uid) ls ?s2) r) =
        try_enqueue (UserLeft ?uid) (OutChan (conns ?s2 r))"
      by (rule broadcast_delivers)
    then show "OutChan (conns ?s' r) = try_enqueue (UserLeft ?uid) (OutChan (conns s r))"
      unfolding s' by (simp only: Cancel_frame BroadcastLeave_def s2(2))
  qed
  have eff: "effects ?s' = effects ?s2"
    unfolding s' by (simp only: Cancel_frame BroadcastLeave_def broadcast_frame)
  have lob: "lobbies ?s' = lobbies s"
    unfolding s' by (simp only: Cancel_frame BroadcastLeave_def broadcast_frame s2(1))
  have can: "Cancelled (conns ?s' conn)"
    unfolding s' by (rule Cancel_frame(3))
  show ?thesis
    using sent can lob by (auto simp only: eff s2(3))
qed

theorem C8_leave_witness:
  "RemoveUserFromLobby ext0 2 100 = Some ''connection refused''
   \<and> effects (handleLobbyMessage ext0 leave_packet 100 1 s0) =
       [DbRemoveUserFromLobby 2 100, Logf Warn ''failed to remove user %v from DB: %v'']
   \<and> OutChan (conns (handleLobbyMessage ext0 leave_packet 100 1 s0) 0) = [UserLeft 2]
   \<and> Cancelled (conns (handleLobbyMessage ext0 leave_packet 100 1 s0) 1)"
proof -
  let ?h = "handleLobbyMessage ext0 leave_packet 100 1 s0"
  have ty: "as_string (leave_packet ''type'') = ''leave_lobby''"
    by (simp add: leave_packet_def)
  have uid: "UserID (conns s0 (Suc 0)) = 2" and lid: "LobbyID (lobbies s0 100) = 100"
    and q: "OutChan (conns s0 0) = []" and e: "effects s0 = []"
    by (simp_all add: s0_def conns0_def lobby0_def)
  have mem: "connected 100 s0 = {(1, 0), (2, 1)}"
    by (auto simp: connected_def s0_def lobby0_def)
  have db: "RemoveUserFromLobby ext0 2 100 = Some ''connection refused''"
    by (simp add: ext0_def)
  note main = C8_leave_proceeds_despite_persistence_error
      [where packet = leave_packet and ls = 100 and ext = ext0 and conn = 1 and s = s0, OF ty]
  have a: "effects ?h =
      [DbRemoveUserFromLobby 2 100, Logf Warn ''failed to remove user %v from DB: %v'']"
    using main [THEN conjunct1] by (simp add: uid lid e db)
  have b: "OutChan (conns ?h 0) = [UserLeft 2]"
    using main [THEN conjunct2, THEN conjunct1] by (simp add: uid mem q try_enqueue_def)
  have c: "Cancelled (conns ?h 1)"
    using main [THEN conjunct2, THEN conjunct2, THEN conjunct1] .
  from db a b c show ?thesis by (simp only: simp_thms)
qed

section \<open>The exit of the read task\<close>

lemma handleLobbyMessage_UserID:
  "UserID (conns (handleLobbyMessage ext packet ls conn s) r) = UserID (conns s r)"
  by (simp add: handleLobbyMessage_def handle_ready_def handle_unready_def
      handle_leave_lobby_def handle_chat_def set_ready_def BroadcastReadyState_def
      BroadcastLeave_def BroadcastChat_def broadcast_def StartCountdown_def
      CancelCountdown_def upd_ls_def Cancel_def emit_def logf_def Let_def
      split: option.splits)

lemma handleLobbyMessage_closes:
  "closes k (handleLobbyMessage ext packet ls conn s) = closes k s"
  by (simp add: closes_def handleLobbyMessage_def handle_ready_def handle_unready_def
      handle_leave_lobby_def handle_chat_def set_ready_def BroadcastReadyState_def
      BroadcastLeave_def BroadcastChat_def broadcast_def StartCountdown_def
      CancelCountdown_def upd_ls_def Cancel_def emit_def logf_def Let_def
      split: option.splits)

lemma logf_frame:
  "UserID (conns (logf l f s) r) = UserID (conns s r)"
  "closes k (logf l f s) = closes k s"
  "lobbies (logf l f s) = lobbies s"
  "conns (logf l f s) = conns s"
  by (simp_all add: logf_def closes_def)

lemma readLoop_frames:
  "list_all is_frame pre \<Longrightarrow>
     readLoop ext ls conn (pre @ rest) s =
       readLoop ext ls conn rest (final (readLoop ext ls conn pre s))
     \<and> readLoop ext ls conn pre s = Suspended (final (readLoop ext ls conn pre s))
     \<and> UserID (conns (final (readLoop ext ls conn pre s)) r) = UserID (conns s r)
     \<and> closes k (final (readLoop ext ls conn pre s)) = closes k s"
proof (induction pre arbitrary: s)
  case Nil
  then show ?case by simp
next
  case (Cons fr pre)
  then obtain ty payload where fr: "fr = ReadFrame ty payload" and pre: "list_all is_frame pre"
    by (cases fr) auto
  show ?case
    using Cons.IH [OF pre]
    by (simp add: fr handleLobbyMessage_UserID handleLobbyMessage_closes logf_frame
        split: sum.splits)
qed

lemma RemoveUser_unregisters:
  "map_of (Connections (lobbies (RemoveUser u ls s) ls)) u = None"
  "map_of (ReadyStates (lobbies (RemoveUser u ls s) ls)) u = None"
  "effects (RemoveUser u ls s) = effects s"
  by (simp_all add: RemoveUser_def BroadcastLeave_def broadcast_def upd_ls_def Cancel_def
      Let_def delete_conv' split: option.splits)

text \<open>
  C3. The read task leaves its loop only on a read error (a transport close and a
  cancelled context are read errors). When the first read error comes, after any number
  of frames, the task returns and its deferred function has run on the state the loop
  reached: it removes the participant from the lobby state (the user is then in neither
  map), cancels the connection's cancellation handle and closes the transport with the
  normal-closure status. This happens once: the run adds exactly one close frame for the
  transport, and as long as no read error has come the task is suspended in the read and
  nothing of it has run.
\<close>

theorem C3_read_error_runs_cleanup_once:
  assumes frames: "list_all is_frame pre"
  shows "readPump ext c ls conn (pre @ ReadError err # rest) s =
           Returned (on_exit c ls conn (before_exit ext ls conn pre s))
       \<and> on_exit c ls conn (before_exit ext ls conn pre s) =
           Close c StatusNormalClosure ''closing''
             (Cancel conn (RemoveUser (UserID (conns s conn)) ls (before_exit ext ls conn pre s)))
       \<and> map_of (Connections (lobbies (on_exit c ls conn (before_exit ext ls conn pre s)) ls))
            (UserID (conns s conn)) = None
       \<and> ready_flag ls (on_exit c ls conn (before_exit ext ls conn pre s))
            (UserID (conns s conn)) = None
       \<and> Cancelled (conns (on_exit c ls conn (before_exit ext ls conn pre s)) conn)
       \<and> effects (on_exit c ls conn (before_exit ext ls conn pre s)) =
            effects (before_exit ext ls conn pre s) @
              [WsClose (Sock c) StatusNormalClosure ''closing'']
       \<and> closes (Sock c) (on_exit c ls conn (before_exit ext ls conn pre s)) =
            Suc (closes (Sock c) s)
       \<and> readPump ext c ls conn pre s = Suspended (final (readLoop ext ls conn pre s))"
proof -
  let ?m = "before_exit ext ls conn pre s"
  let ?uid = "UserID (conns s conn)"
  note loop = readLoop_frames [OF frames, of ext ls conn]
  have run: "readPump ext c ls conn (pre @ ReadError err # rest) s = Returned (on_exit c ls conn ?m)"
    using loop [of "ReadError err # rest" s conn 0, THEN conjunct1]
    by (simp add: readPump_def before_exit_def)
  have uid: "UserID (conns ?m conn) = ?uid"
    using loop [of "[]" s conn 0] by (simp add: before_exit_def logf_frame)
  have cl: "closes (Sock c) ?m = closes (Sock c) s"
    using loop [of "[]" s conn "Sock c"] by (simp add: before_exit_def logf_frame)
  have ex: "on_exit c ls conn ?m =
      Close c StatusNormalClosure ''closing'' (Cancel conn (RemoveUser ?uid ls ?m))"
    by (simp add: on_exit_def uid Let_def)
  have un: "map_of (Connections (lobbies (on_exit c ls conn ?m) ls)) ?uid = None"
    "ready_flag ls (on_exit c ls conn ?m) ?uid = None"
    unfolding ex
    by (simp_all add: Close_def emit_def Cancel_frame RemoveUser_unregisters ready_flag_def)
  have ca: "Cancelled (conns (on_exit c ls conn ?m) conn)"
    unfolding ex by (simp add: Close_def emit_def Cancel_frame)
  have ef: "effects (on_exit c ls conn ?m) =
      effects ?m @ [WsClose (Sock c) StatusNormalClosure ''closing'']"
    unfolding ex by (simp add: Close_def emit_def Cancel_frame RemoveUser_unregisters)
  have once: "closes (Sock c) (on_exit c ls conn ?m) = Suc (closes (Sock c) s)"
    using cl by (simp add: closes_def ef)
  have susp: "readPump ext c ls conn pre s = Suspended (final (readLoop ext ls conn pre s))"
    using loop [of "[]" s conn 0, THEN conjunct2, THEN conjunct1]
    by (cases "readLoop ext ls conn pre s") (simp_all add: readPump_def)
  from run ex un ca ef once susp show ?thesis by (simp only: simp_thms)
qed

theorem C3_read_error_witness:
  "has_returned (readPump ext0 \<lparr>Sock = 7, Subprotocol = ''lobby''\<rparr> 100 0
       (frames0 @ [ReadError ''EOF'', ReadFrame MessageText ''ready'']) s0)
   \<and> map_of (Connections (lobbies (final (readPump ext0 \<lparr>Sock = 7, Subprotocol = ''lobby''\<rparr> 100 0
       (frames0 @ [ReadError ''EOF'', ReadFrame MessageText ''ready'']) s0)) 100)) 1 = None
   \<and> Cancelled (conns (final (readPump ext0 \<lparr>Sock = 7, Subprotocol = ''lobby''\<rparr> 100 0
       (frames0 @ [ReadError ''EOF'', ReadFrame MessageText ''ready'']) s0)) 0)
   \<and> closes 7 (final (readPump ext0 \<lparr>Sock = 7, Subprotocol = ''lobby''\<rparr> 100 0
       (frames0 @ [ReadError ''EOF'', ReadFrame MessageText ''ready'']) s0)) = 1
   \<and> \<not> has_returned (readPump ext0 \<lparr>Sock = 7, Subprotocol = ''lobby''\<rparr> 100 0 frames0 s0)"
proof -
  let ?c = "\<lparr>Sock = 7, Subprotocol = ''lobby''\<rparr>"
  have fr: "list_all is_frame frames0"
    by (simp add: frames0_def)
  have uid: "UserID (conns s0 0) = 1" and cl: "closes 7 s0 = 0"
    by (simp_all add: s0_def conns0_def closes_def)
  note main = C3_read_error_runs_cleanup_once
      [OF fr, of ext0 ?c 100 0 "''EOF''" "[ReadFrame MessageText ''ready'']" s0]
  have run: "readPump ext0 ?c 100 0 (frames0 @ [ReadError ''EOF'', ReadFrame MessageText ''ready'']) s0
      = Returned (on_exit ?c 100 0 (before_exit ext0 100 0 frames0 s0))"
    using main [THEN conjunct1] .
  have a: "map_of (Connections (lobbies (on_exit ?c 100 0 (before_exit ext0 100 0 frames0 s0)) 100)) 1 = None"
    using main [THEN conjunct2, THEN conjunct2, THEN conjunct1] by (simp add: uid)
  have b: "Cancelled (conns (on_exit ?c 100 0 (before_exit ext0 100 0 frames0 s0)) 0)"
    using main [THEN conjunct2, THEN conjunct2, THEN conjunct2, THEN conjunct2, THEN conjunct1] .
  have d: "closes 7 (on_exit ?c 100 0 (before_exit ext0 100 0 frames0 s0)) = 1"
    using main [THEN conjunct2, THEN conjunct2, THEN conjunct2, THEN conjunct2, THEN conjunct2,
        THEN conjunct2, THEN conjunct1] by (simp add: cl)
  have e: "\<not> has_returned (readPump ext0 ?c 100 0 frames0 s0)"
    using main [THEN conjunct2, THEN conjunct2, THEN conjunct2, THEN conjunct2, THEN conjunct2,
        THEN conjunct2, THEN conjunct2] by simp
  from a b d e show ?thesis by (simp add: run)
qed

section \<open>Registration\<close>

lemma update_set_subset: "set (AList.update k v cs) \<subseteq> insert (k, v) (set cs)"
  by (induction cs) auto



lemma GetOrCreate_frame:
  "conns (GetOrCreateLobbyState ext l s) = conns s"
  "next_conn (GetOrCreateLobbyState ext l s) = next_conn s"
  "effects (GetOrCreateLobbyState ext l s) = effects s"
  by (simp_all add: GetOrCreateLobbyState_def)

text \<open>For a member whose upgrade and token check out, the handler is registration
  followed by the read task on the registered state.\<close>

lemma LobbyWSHandler_accepted:
  assumes path: "uuid_Parse ext (hd (strings_Split
                   (strings_TrimPrefix (url_path r) ''/lobby/ws/'') CHR ''/'')) = Inr lobbyUUID"
      and acc: "accept r = Inr c"
      and sub: "Subprotocol c = ''lobby''"
      and auth: "AuthenticateJWT ext (extractCookieToken ext (cookie r) ''auth_token'') = Inr userIDStr"
      and user: "uuid_Parse ext userIDStr = Inr userID"
      and member: "IsUserInLobby ext lobbyUUID userID = Inr True"
  shows "LobbyWSHandler ext r frames s =
           readPump ext c lobbyUUID (snd (register_conn ext c lobbyUUID userID s)) frames
             (fst (register_conn ext c lobbyUUID userID s))"
  using assms
  by (simp add: LobbyWSHandler_def strings_Split_nonempty authorize_def split: prod.splits)

text \<open>Registration hands out a fresh reference, so the references held by the
  connection map stay below the allocator.\<close>

lemma register_conn_allocated:
  assumes alloc: "\<forall>(u, r) \<in> connected lobbyUUID (GetOrCreateLobbyState ext lobbyUUID s).
                    r < next_conn s"
  shows "\<forall>(u, r) \<in> connected lobbyUUID (fst (register_conn ext c lobbyUUID userID s)).
           r < next_conn (fst (register_conn ext c lobbyUUID userID s))"
proof -
  let ?g = "GetOrCreateLobbyState ext lobbyUUID s"
  have cs: "Connections (lobbies (fst (register_conn ext c lobbyUUID userID s)) lobbyUUID) =
      AList.update userID (next_conn s) (Connections (lobbies ?g lobbyUUID))"
    and n: "next_conn (fst (register_conn ext c lobbyUUID userID s)) = Suc (next_conn s)"
    by (simp_all add: register_conn_def Let_def GetOrCreate_frame upd_ls_def logf_def emit_def
        BroadcastJoin_def broadcast_frame)
  show ?thesis
    using alloc update_set_subset [of userID "next_conn s" "Connections (lobbies ?g lobbyUUID)"]
    by (fastforce simp: connected_def cs n)
qed



section \<open>Writes outside the lock\<close>

text \<open>The operations of the lobby package keep the discipline, and so do the cases of
  the dispatcher that only call them.\<close>

lemma lobby_operations_disciplined:
  "lock_disciplined (Broadcast_accesses ls)"
  "lock_disciplined (AreAllReady_accesses ls)"
  "lock_disciplined (StartCountdown_accesses ls s)"
  "lock_disciplined (CancelCountdown_accesses ls s)"
  "lock_disciplined (RemoveUser_accesses ls)"
  "lock_disciplined (on_exit_accesses ls)"
  by (simp_all add: lock_disciplined_def Broadcast_accesses_def AreAllReady_accesses_def
      StartCountdown_accesses_def CancelCountdown_accesses_def RemoveUser_accesses_def
      on_exit_accesses_def critical_def split: option.splits)

lemma chat_and_leave_disciplined:
  "as_string (packet ''type'') = ''chat'' \<or> as_string (packet ''type'') = ''leave_lobby'' \<Longrightarrow>
     lock_disciplined (handleLobbyMessage_accesses packet ls conn s)"
  by (auto simp: handleLobbyMessage_accesses_def lobby_operations_disciplined)

text \<open>
  C5. The claim is that every mutation of a lobby state's connection map, ready-flag map
  and countdown handle, those of the connection-accept path and of message dispatch
  included, runs under that lobby's exclusive lock. The code does not do this. In every
  state, registration writes both maps, and the \<open>ready\<close> and \<open>unready\<close> cases of the
  dispatcher write the ready-flag map, with no lock held: the accesses of these paths do
  not keep the lock discipline.
\<close>

theorem C5_handler_writes_maps_outside_lock:
  "\<not> lock_disciplined (register_conn_accesses lobbyUUID)
   \<and> (as_string (packet ''type'') = ''ready'' \<or> as_string (packet ''type'') = ''unready'' \<longrightarrow>
        \<not> lock_disciplined (handleLobbyMessage_accesses packet ls conn s))"
  by (auto simp: lock_disciplined_def register_conn_accesses_def handleLobbyMessage_accesses_def
      handle_ready_accesses_def handle_unready_accesses_def Let_def)

theorem C5_handler_writes_witness:
  "handleLobbyMessage_accesses ready_packet 100 0 s0 =
     [WriteReadyStates 100, Lock 100, Unlock 100, Lock 100, Unlock 100, Lock 100,
      WriteCountdown 100, Unlock 100]
   \<and> \<not> lock_disciplined (handleLobbyMessage_accesses ready_packet 100 0 s0)
   \<and> \<not> lock_disciplined (handleLobbyMessage_accesses unready_packet 100 1 s_counting)
   \<and> register_conn_accesses 100 = [WriteConnections 100, WriteReadyStates 100, Lock 100, Unlock 100]
   \<and> \<not> lock_disciplined (register_conn_accesses 100)"
proof -
  have r: "as_string (ready_packet ''type'') = ''ready'' \<or>
           as_string (ready_packet ''type'') = ''unready''"
    by (simp add: ready_packet_def)
  have u: "as_string (unready_packet ''type'') = ''ready'' \<or>
           as_string (unready_packet ''type'') = ''unready''"
    by (simp add: unready_packet_def)
  have t: "handleLobbyMessage_accesses ready_packet 100 0 s0 =
     [WriteReadyStates 100, Lock 100, Unlock 100, Lock 100, Unlock 100, Lock 100,
      WriteCountdown 100, Unlock 100]"
    by (simp add: handleLobbyMessage_accesses_def handle_ready_accesses_def ready_packet_def
        Broadcast_accesses_def AreAllReady_accesses_def StartCountdown_accesses_def critical_def
        set_ready_def BroadcastReadyState_def broadcast_def upd_ls_def AreAllReady_def
        s0_def lobby0_def conns0_def Let_def)
  have g: "register_conn_accesses 100 =
      [WriteConnections 100, WriteReadyStates 100, Lock 100, Unlock 100]"
    by (simp add: register_conn_accesses_def Broadcast_accesses_def critical_def)
  note main = C5_handler_writes_maps_outside_lock
  have a: "\<not> lock_disciplined (handleLobbyMessage_accesses ready_packet 100 0 s0)"
    using main [where packet = ready_packet and ls = 100 and conn = 0 and s = s0,
        THEN conjunct2] r by blast
  have b: "\<not> lock_disciplined (handleLobbyMessage_accesses unready_packet 100 1 s_counting)"
    using main [where packet = unready_packet and ls = 100 and conn = 1 and s = s_counting,
        THEN conjunct2] u by blast
  have c: "\<not> lock_disciplined (register_conn_accesses 100)"
    using main [where lobbyUUID = 100, THEN conjunct1] .
  from t a b g c show ?thesis by (simp only: simp_thms)
qed

section \<open>The write task, case by case\<close>





lemma writeLoop_idle:
  "\<not> done \<Longrightarrow> writeLoop ext k done sched i [] es = Suspended ([], es)"
  by simp






end
